theory Spec2Isabelle
  imports Main "HOL-Library.Sublist"
begin

section \<open>Data model of the WebGL profiler\<close>

text \<open>
  The embedding follows the class \<open>WebGLProfiler\<close>. Every method becomes a function from
  the profiler state to a result; a thrown \<open>Error\<close> is the left summand and carries the
  state in which the exception leaves the object, since the source never rolls a
  mutation back. JavaScript numbers are modelled by \<open>int\<close> (rounding of floating point
  additions is outside the model).
\<close>

datatype GPUProfilerActionType = OPEN_FRAME | CLOSE_FRAME

text \<open>Interface \<open>GPUProfilerAction\<close>; the fields are \<open>type\<close> and \<open>name\<close> in the source.\<close>

record GPUProfilerAction =
  action_type :: GPUProfilerActionType
  action_name :: string

text \<open>A timer query object is identified by a number, fresh at each creation.\<close>

type_synonym WebGLTimerQueryEXT = nat

text \<open>Interface \<open>GPUProfilerEventPendingTimestamp\<close>, fields \<open>action\<close> and \<open>query\<close>.\<close>

record GPUProfilerEventPendingTimestamp =
  pending_action :: GPUProfilerAction
  query :: WebGLTimerQueryEXT

text \<open>Interface \<open>GPUProfilerResolvedEvent\<close>.\<close>

record GPUProfilerResolvedEvent =
  action :: GPUProfilerAction
  timestamp :: int

subsection \<open>The rendering context\<close>

text \<open>
  The state-changing calls that the profiler issues on the extension object. The context
  keeps them in the order issued; a new query object is numbered by the length of that
  log at its creation, so no two creations return the same object.
\<close>

datatype gl_call =
    CreateQueryEXT WebGLTimerQueryEXT
  | BeginQueryEXT WebGLTimerQueryEXT
  | EndQueryEXT
  | DeleteQueryEXT WebGLTimerQueryEXT

text \<open>
  \<open>timer_ext\<close>: whether \<open>getExtension("EXT_disjoint_timer_query")\<close> is non-null.
  \<open>UNMASKED_RENDERER_WEBGL\<close>: \<open>None\<close> when \<open>getExtension("WEBGL_debug_renderer_info")\<close>
  is null, otherwise the renderer string that \<open>getParameter\<close> returns.
\<close>

record WebGLRenderingContext =
  timer_ext :: bool
  UNMASKED_RENDERER_WEBGL :: "string option"
  calls :: "gl_call list"

definition createQueryEXT :: "WebGLRenderingContext \<Rightarrow> WebGLTimerQueryEXT \<times> WebGLRenderingContext" where
  "createQueryEXT c = (length (calls c), c\<lparr>calls := calls c @ [CreateQueryEXT (length (calls c))]\<rparr>)"

definition beginQueryEXT :: "WebGLTimerQueryEXT \<Rightarrow> WebGLRenderingContext \<Rightarrow> WebGLRenderingContext" where
  "beginQueryEXT q c = c\<lparr>calls := calls c @ [BeginQueryEXT q]\<rparr>"

definition endQueryEXT :: "WebGLRenderingContext \<Rightarrow> WebGLRenderingContext" where
  "endQueryEXT c = c\<lparr>calls := calls c @ [EndQueryEXT]\<rparr>"

definition deleteQueryEXT :: "WebGLTimerQueryEXT \<Rightarrow> WebGLRenderingContext \<Rightarrow> WebGLRenderingContext" where
  "deleteQueryEXT q c = c\<lparr>calls := calls c @ [DeleteQueryEXT q]\<rparr>"

text \<open>
  What the GPU answers during one synchronous run of \<open>resolveEventsIfPossible\<close>:
  \<open>getQueryObjectEXT(query, QUERY_RESULT_AVAILABLE_EXT)\<close>,
  \<open>getQueryObjectEXT(query, QUERY_RESULT_EXT)\<close>, and the value of
  \<open>getParameter(GPU_DISJOINT_EXT)\<close> at its \<open>k\<close>-th read of the run, counted from 0
  (the loop reads the flag once in each iteration that finds a result available, so the
  read of iteration \<open>i\<close> is read number \<open>i\<close>).
\<close>

record gpu_readings =
  QUERY_RESULT_AVAILABLE_EXT :: "WebGLTimerQueryEXT \<Rightarrow> bool"
  QUERY_RESULT_EXT :: "WebGLTimerQueryEXT \<Rightarrow> int"
  GPU_DISJOINT_EXT :: "nat \<Rightarrow> bool"

subsection \<open>The profiler object\<close>

datatype EXTDisjointTimerQuery = EXT_disjoint_timer_query

text \<open>The field \<open>context\<close> of the source is \<open>glcontext\<close> here.\<close>

record WebGLProfiler =
  glcontext :: WebGLRenderingContext
  ext :: "EXTDisjointTimerQuery option"
  activeQuery :: "WebGLTimerQueryEXT option"
  isRunning :: bool
  eventsPendingTimestamps :: "GPUProfilerEventPendingTimestamp list"
  resolvedEvents :: "GPUProfilerResolvedEvent list"
  namedContextStack :: "string list"

text \<open>
  Every \<open>throw new Error(...)\<close> of the source, one constructor for each throw site, in
  the order of the source text.
\<close>

datatype error =
    ExtensionNotAvailable
  | AlreadyRunning
  | BuggyRenderer string
  | AlreadyStopped
  | PopOnEmptyStack
  | PopMismatch string string
  | NoProfileActive
  | GpuDisjoint
  | ProfileIsEmpty

text \<open>
  The source throws plain \<open>Error\<close> objects that differ in their message only. The
  specification names classes of errors; each throw site belongs to one class.
\<close>

datatype error_class =
    UnsupportedError
  | UnsupportedHardwareError
  | InvalidStateError
  | ProtocolError
  | UnreliableTimingError
  | EmptyProfileError

fun error_class_of :: "error \<Rightarrow> error_class" where
  "error_class_of ExtensionNotAvailable = UnsupportedError"
| "error_class_of AlreadyRunning = InvalidStateError"
| "error_class_of (BuggyRenderer r) = UnsupportedHardwareError"
| "error_class_of AlreadyStopped = InvalidStateError"
| "error_class_of PopOnEmptyStack = ProtocolError"
| "error_class_of (PopMismatch popped nm) = ProtocolError"
| "error_class_of NoProfileActive = ProtocolError"
| "error_class_of GpuDisjoint = UnreliableTimingError"
| "error_class_of ProfileIsEmpty = EmptyProfileError"

type_synonym result = "(error \<times> WebGLProfiler) + WebGLProfiler"

text \<open>The state in which a call leaves the object, whether it returned or threw.\<close>

fun state_after :: "result \<Rightarrow> WebGLProfiler" where
  "state_after (Inl (e, s)) = s"
| "state_after (Inr s) = s"

fun raised :: "result \<Rightarrow> error option" where
  "raised (Inl (e, s)) = Some e"
| "raised (Inr s) = None"

section \<open>Operations\<close>

text \<open>The constructor.\<close>

definition WebGLProfiler_new :: "WebGLRenderingContext \<Rightarrow> WebGLProfiler" where
  "WebGLProfiler_new c =
     \<lparr>glcontext = c,
      ext = (if timer_ext c then Some EXT_disjoint_timer_query else None),
      activeQuery = None,
      isRunning = False,
      eventsPendingTimestamps = [],
      resolvedEvents = [],
      namedContextStack = []\<rparr>"

definition isProfilerRunning :: "WebGLProfiler \<Rightarrow> bool" where
  "isProfilerRunning s = isRunning s"

definition markAction :: "GPUProfilerAction \<Rightarrow> WebGLProfiler \<Rightarrow> result" where
  "markAction a s =
     (if ext s = None then Inr s
      else case activeQuery s of
        None \<Rightarrow> Inl (NoProfileActive, s)
      | Some oldQuery \<Rightarrow>
          (let (q, c1) = createQueryEXT (glcontext s);
               c2 = endQueryEXT c1;
               c3 = beginQueryEXT q c2
           in Inr (s\<lparr>glcontext := c3,
                     activeQuery := Some q,
                     eventsPendingTimestamps :=
                       eventsPendingTimestamps s @ [\<lparr>pending_action = a, query = oldQuery\<rparr>]\<rparr>)))"

text \<open>The array \<open>namedContextStack\<close> grows and shrinks at its end, as \<open>push\<close> and \<open>pop\<close> do.\<close>

definition pushContext :: "string \<Rightarrow> WebGLProfiler \<Rightarrow> result" where
  "pushContext nm s =
     (case markAction \<lparr>action_type = OPEN_FRAME, action_name = nm\<rparr> s of
        Inl e \<Rightarrow> Inl e
      | Inr s1 \<Rightarrow> Inr (s1\<lparr>namedContextStack := namedContextStack s1 @ [nm]\<rparr>))"

definition popContext :: "string \<Rightarrow> WebGLProfiler \<Rightarrow> result" where
  "popContext nm s =
     (if length (namedContextStack s) = 0 then Inl (PopOnEmptyStack, s)
      else
        (let popped = last (namedContextStack s);
             s1 = s\<lparr>namedContextStack := butlast (namedContextStack s)\<rparr>
         in if popped \<noteq> nm then Inl (PopMismatch popped nm, s1)
            else markAction \<lparr>action_type = CLOSE_FRAME, action_name = nm\<rparr> s1))"

text \<open>
  \<open>withContext\<close>: the callback is any computation on the profiler; when it throws, the
  exception leaves \<open>withContext\<close> and the pop is not reached.
\<close>

definition withContext :: "string \<Rightarrow> (WebGLProfiler \<Rightarrow> result) \<Rightarrow> WebGLProfiler \<Rightarrow> result" where
  "withContext nm callback s =
     (case pushContext nm s of
        Inl e \<Rightarrow> Inl e
      | Inr s1 \<Rightarrow>
          (case callback s1 of
             Inl e \<Rightarrow> Inl e
           | Inr s2 \<Rightarrow> popContext nm s2))"

text \<open>\<open>String.prototype.indexOf\<close>: the first position at which the pattern occurs, or \<open>-1\<close>.\<close>

fun indexOf_from :: "nat \<Rightarrow> string \<Rightarrow> string \<Rightarrow> int" where
  "indexOf_from i [] pat = (if pat = [] then int i else -1)"
| "indexOf_from i (c # cs) pat =
     (if prefix pat (c # cs) then int i else indexOf_from (Suc i) cs pat)"

definition indexOf :: "string \<Rightarrow> string \<Rightarrow> int" where
  "indexOf str pat = indexOf_from 0 str pat"

definition start :: "WebGLProfiler \<Rightarrow> result" where
  "start s =
     (if ext s = None then Inl (ExtensionNotAvailable, s)
      else if isRunning s then Inl (AlreadyRunning, s)
      else
        (case (case UNMASKED_RENDERER_WEBGL (glcontext s) of
                 None \<Rightarrow> None
               | Some renderer \<Rightarrow>
                   if indexOf renderer ''NVIDIA GeForce GT 750M'' \<noteq> -1
                   then Some (BuggyRenderer renderer) else None) of
           Some e \<Rightarrow> Inl (e, s)
         | None \<Rightarrow>
             (let s1 = s\<lparr>isRunning := True, eventsPendingTimestamps := [], resolvedEvents := []\<rparr>;
                  (q, c1) = createQueryEXT (glcontext s1);
                  c2 = beginQueryEXT q c1;
                  s2 = s1\<lparr>glcontext := c2, activeQuery := Some q\<rparr>
              in pushContext ''profile'' s2)))"

definition stop :: "WebGLProfiler \<Rightarrow> result" where
  "stop s =
     (if ext s = None then Inr s
      else if \<not> isRunning s then Inl (AlreadyStopped, s)
      else
        (case popContext ''profile'' (s\<lparr>isRunning := False\<rparr>) of
           Inl e \<Rightarrow> Inl e
         | Inr s2 \<Rightarrow>
             Inr (s2\<lparr>activeQuery := None, glcontext := endQueryEXT (glcontext s2)\<rparr>)))"

subsection \<open>Resolution of pending measurements\<close>

text \<open>
  The \<open>while\<close> loop of \<open>resolveEventsIfPossible\<close>, with the loop index \<open>i\<close>. It returns
  the index at which the walk stopped, or the error thrown in the middle of the walk.
\<close>

function resolve_loop :: "gpu_readings \<Rightarrow> nat \<Rightarrow> WebGLProfiler \<Rightarrow> (error \<times> WebGLProfiler) + (nat \<times> WebGLProfiler)" where
  "resolve_loop g i s =
     (if i < length (eventsPendingTimestamps s) then
        (let pendingAction = eventsPendingTimestamps s ! i;
             q = query pendingAction
         in if \<not> QUERY_RESULT_AVAILABLE_EXT g q then Inr (i, s)
            else if GPU_DISJOINT_EXT g i then Inl (GpuDisjoint, s)
            else
              (let elapsed = QUERY_RESULT_EXT g q;
                   c = deleteQueryEXT q (glcontext s);
                   lastTimestamp =
                     (if length (resolvedEvents s) = 0 then 0
                      else timestamp (resolvedEvents s ! (length (resolvedEvents s) - 1)));
                   ts = lastTimestamp + elapsed
               in resolve_loop g (i + 1)
                    (s\<lparr>glcontext := c,
                       resolvedEvents :=
                         resolvedEvents s @ [\<lparr>action = pending_action pendingAction, timestamp = ts\<rparr>]\<rparr>)))
      else Inr (i, s))"
  by pat_completeness auto
termination
  by (relation "measure (\<lambda>(g, i, s). length (eventsPendingTimestamps s) - i)") auto

declare resolve_loop.simps [simp del]

definition resolveEventsIfPossible :: "gpu_readings \<Rightarrow> WebGLProfiler \<Rightarrow> result" where
  "resolveEventsIfPossible g s =
     (if ext s = None then Inr s
      else case resolve_loop g 0 s of
        Inl e \<Rightarrow> Inl e
      | Inr (i, s1) \<Rightarrow>
          Inr (if i > 0
               then s1\<lparr>eventsPendingTimestamps := drop i (eventsPendingTimestamps s1)\<rparr>
               else s1))"

subsection \<open>Export in the speedscope file format\<close>

text \<open>The event types \<open>'O'\<close> and \<open>'C'\<close> of \<open>SpeedscopeEventType\<close>.\<close>

datatype SpeedscopeEventType = Speedscope_OPEN_FRAME | Speedscope_CLOSE_FRAME

datatype SpeedscopeProfileType = EVENTED | SAMPLED

record SpeedscopeFrame =
  frame_name :: string

text \<open>
  The table \<open>frameToIndex\<close> is a plain object literal, and the test \<open>name in frameToIndex\<close>
  also answers true for the properties that every object inherits from
  \<open>Object.prototype\<close>. For such a name no frame is inserted, and \<open>frameToIndex[name]\<close> is
  the inherited member, not a number. The value stored in the \<open>frame\<close> field of an event
  is therefore one of the following.
\<close>

datatype js_value = Number nat | PrototypeProperty string | Undefined

definition Object_prototype_properties :: "string list" where
  "Object_prototype_properties =
     [''constructor'', ''hasOwnProperty'', ''isPrototypeOf'', ''propertyIsEnumerable'',
      ''toLocaleString'', ''toString'', ''valueOf'', ''__proto__'',
      ''__defineGetter__'', ''__defineSetter__'', ''__lookupGetter__'', ''__lookupSetter__'']"

definition js_in :: "string \<Rightarrow> (string \<rightharpoonup> nat) \<Rightarrow> bool" where
  "js_in nm obj = (obj nm \<noteq> None \<or> nm \<in> set Object_prototype_properties)"

definition js_get :: "(string \<rightharpoonup> nat) \<Rightarrow> string \<Rightarrow> js_value" where
  "js_get obj nm =
     (case obj nm of
        Some i \<Rightarrow> Number i
      | None \<Rightarrow> if nm \<in> set Object_prototype_properties then PrototypeProperty nm else Undefined)"

text \<open>The fields \<open>type\<close>, \<open>frame\<close> and \<open>at\<close> of an open or close event.\<close>

record SpeedscopeEvent =
  event_type :: SpeedscopeEventType
  frame :: js_value
  at :: int

record SpeedscopeEventedProfile =
  profile_type :: SpeedscopeProfileType
  profile_name :: string
  profile_unit :: string
  startValue :: int
  endValue :: int
  events :: "SpeedscopeEvent list"

text \<open>The fields \<open>$schema\<close>, \<open>shared.frames\<close> and \<open>profiles\<close>.\<close>

record SpeedscopeFile =
  schema :: string
  shared_frames :: "SpeedscopeFrame list"
  profiles :: "SpeedscopeEventedProfile list"

text \<open>The local function \<open>getOrInsertFrame\<close>, on the array \<open>frames\<close> and the table \<open>frameToIndex\<close>.\<close>

definition getOrInsertFrame ::
  "string \<Rightarrow> SpeedscopeFrame list \<times> (string \<rightharpoonup> nat) \<Rightarrow>
     js_value \<times> SpeedscopeFrame list \<times> (string \<rightharpoonup> nat)" where
  "getOrInsertFrame nm st =
     (let (frames, frameToIndex) = st;
          (frames1, frameToIndex1) =
             (if \<not> js_in nm frameToIndex
              then (frames @ [\<lparr>frame_name = nm\<rparr>], frameToIndex(nm \<mapsto> length frames))
              else (frames, frameToIndex))
      in (js_get frameToIndex1 nm, frames1, frameToIndex1))"

text \<open>The \<open>for ... of\<close> loop over \<open>resolvedEvents\<close>.\<close>

fun convert_events ::
  "GPUProfilerResolvedEvent list \<Rightarrow>
     SpeedscopeEvent list \<times> SpeedscopeFrame list \<times> (string \<rightharpoonup> nat) \<Rightarrow>
     SpeedscopeEvent list \<times> SpeedscopeFrame list \<times> (string \<rightharpoonup> nat)" where
  "convert_events [] acc = acc"
| "convert_events (event # rest) (speedscopeEvents, frames, frameToIndex) =
     (let (fr, frames1, frameToIndex1) =
            getOrInsertFrame (action_name (action event)) (frames, frameToIndex)
      in convert_events rest
           (speedscopeEvents @
              [\<lparr>event_type =
                   (if action_type (action event) = OPEN_FRAME
                    then Speedscope_OPEN_FRAME else Speedscope_CLOSE_FRAME),
                 frame = fr,
                 at = timestamp event\<rparr>],
            frames1, frameToIndex1))"

text \<open>
  \<open>toSpeedscopeProfile\<close> builds the file object; the final \<open>JSON.stringify\<close> is not
  modelled (it leaves out a \<open>frame\<close> field whose value is an inherited function).
\<close>

definition toSpeedscopeProfile :: "WebGLProfiler \<Rightarrow> error + SpeedscopeFile" where
  "toSpeedscopeProfile s =
     (if length (resolvedEvents s) = 0 then Inl ProfileIsEmpty
      else
        (let (speedscopeEvents, frames, frameToIndex) =
               convert_events (resolvedEvents s) ([], [], Map.empty)
         in Inr \<lparr>schema = ''https://www.Speedscopeapp/file-format-schema.json'',
                 shared_frames = frames,
                 profiles =
                   [\<lparr>profile_type = EVENTED,
                      profile_name = ''GPU Profile'',
                      profile_unit = ''nanoseconds'',
                      startValue = 0,
                      endValue = timestamp (resolvedEvents s ! (length (resolvedEvents s) - 1)),
                      events = speedscopeEvents\<rparr>]\<rparr>))"

text \<open>
  \<open>exportSpeedscopeProfile\<close> polls once per animation frame for as long as measurements
  are pending. The list holds what the GPU answers at each successive poll; \<open>None\<close> means
  that the promise is still waiting when the list is used up.
\<close>

fun exportSpeedscopeProfile ::
  "gpu_readings list \<Rightarrow> WebGLProfiler \<Rightarrow>
     ((error \<times> WebGLProfiler) + (SpeedscopeFile \<times> WebGLProfiler)) option" where
  "exportSpeedscopeProfile [] s =
     (if length (eventsPendingTimestamps s) > 0 then None
      else Some (case toSpeedscopeProfile s of Inl e \<Rightarrow> Inl (e, s) | Inr f \<Rightarrow> Inr (f, s)))"
| "exportSpeedscopeProfile (g # gs) s =
     (if length (eventsPendingTimestamps s) > 0 then
        (case resolveEventsIfPossible g s of
           Inl e \<Rightarrow> Some (Inl e)
         | Inr s1 \<Rightarrow> exportSpeedscopeProfile gs s1)
      else Some (case toSpeedscopeProfile s of Inl e \<Rightarrow> Inl (e, s) | Inr f \<Rightarrow> Inr (f, s)))"

section \<open>Sequences of calls\<close>

text \<open>
  The calls a client makes on the object; \<open>ResolveEventsIfPossible\<close> is one poll of a
  running export, which other calls may interleave with between two animation frames.
\<close>

datatype call =
    Start
  | Stop
  | PushContext string
  | PopContext string
  | ResolveEventsIfPossible gpu_readings

fun exec :: "call \<Rightarrow> WebGLProfiler \<Rightarrow> result" where
  "exec Start s = start s"
| "exec Stop s = stop s"
| "exec (PushContext nm) s = pushContext nm s"
| "exec (PopContext nm) s = popContext nm s"
| "exec (ResolveEventsIfPossible g) s = resolveEventsIfPossible g s"


text \<open>A client that catches every exception and goes on with the object as it was left.\<close>

fun run_catching :: "call list \<Rightarrow> WebGLProfiler \<Rightarrow> WebGLProfiler" where
  "run_catching [] s = s"
| "run_catching (c # cs) s = run_catching cs (state_after (exec c s))"






subsection \<open>Example objects\<close>

text \<open>A context that offers the timer extension and no renderer information.\<close>

definition ctx0 :: WebGLRenderingContext where
  "ctx0 = \<lparr>timer_ext = True, UNMASKED_RENDERER_WEBGL = None, calls = []\<rparr>"

text \<open>A context without the timer extension.\<close>

definition ctx_noext :: WebGLRenderingContext where
  "ctx_noext = \<lparr>timer_ext = False, UNMASKED_RENDERER_WEBGL = None, calls = []\<rparr>"

text \<open>Readings with every result available after 5 nanoseconds and no disjoint event.\<close>

definition gpu5 :: gpu_readings where
  "gpu5 = \<lparr>QUERY_RESULT_AVAILABLE_EXT = (\<lambda>q. True),
           QUERY_RESULT_EXT = (\<lambda>q. 5),
           GPU_DISJOINT_EXT = (\<lambda>k. False)\<rparr>"

text \<open>The object right after a successful \<open>start()\<close> on a fresh profiler.\<close>

definition started0 :: WebGLProfiler where
  "started0 = state_after (start (WebGLProfiler_new ctx0))"

subsection \<open>Auxiliary functions for the analysis of the resolution loop\<close>

text \<open>
  These functions are not part of the program. They describe, by recursion on the pending
  list, what the loop of \<open>resolveEventsIfPossible\<close> computes: \<open>stamp\<close> accumulates the
  elapsed durations from a starting value, \<open>last_timestamp\<close> is that starting value, and
  \<open>walk\<close> counts the iterations that append an event (entries whose result is available
  while the disjoint flag reads false).
\<close>

fun stamp ::
  "gpu_readings \<Rightarrow> int \<Rightarrow> GPUProfilerEventPendingTimestamp list \<Rightarrow> GPUProfilerResolvedEvent list" where
  "stamp g t [] = []"
| "stamp g t (p # ps) =
     \<lparr>action = pending_action p, timestamp = t + QUERY_RESULT_EXT g (query p)\<rparr> #
     stamp g (t + QUERY_RESULT_EXT g (query p)) ps"

definition last_timestamp :: "GPUProfilerResolvedEvent list \<Rightarrow> int" where
  "last_timestamp rs = (if rs = [] then 0 else timestamp (last rs))"

fun walk :: "gpu_readings \<Rightarrow> nat \<Rightarrow> GPUProfilerEventPendingTimestamp list \<Rightarrow> nat" where
  "walk g i [] = 0"
| "walk g i (p # ps) =
     (if QUERY_RESULT_AVAILABLE_EXT g (query p) \<and> \<not> GPU_DISJOINT_EXT g i
      then Suc (walk g (Suc i) ps) else 0)"

text \<open>The object after \<open>k\<close> iterations of the loop that started at index \<open>i\<close>.\<close>

definition resolved_prefix :: "gpu_readings \<Rightarrow> nat \<Rightarrow> nat \<Rightarrow> WebGLProfiler \<Rightarrow> WebGLProfiler" where
  "resolved_prefix g i k s =
     s\<lparr>glcontext := (glcontext s)\<lparr>calls := calls (glcontext s) @
          map (\<lambda>p. DeleteQueryEXT (query p)) (take k (drop i (eventsPendingTimestamps s)))\<rparr>,
       resolvedEvents := resolvedEvents s @
          stamp g (last_timestamp (resolvedEvents s)) (take k (drop i (eventsPendingTimestamps s)))\<rparr>"



text \<open>The object after \<open>start()\<close> and \<open>pushContext("a")\<close>, with two measurements pending.\<close>

definition pushed0 :: WebGLProfiler where
  "pushed0 = state_after (pushContext ''a'' started0)"

text \<open>Readings in which the second read of the disjoint flag answers true.\<close>

definition gpu_disjoint_second :: gpu_readings where
  "gpu_disjoint_second =
     \<lparr>QUERY_RESULT_AVAILABLE_EXT = (\<lambda>q. True),
      QUERY_RESULT_EXT = (\<lambda>q. 5),
      GPU_DISJOINT_EXT = (\<lambda>k. k = 1)\<rparr>"

text \<open>A context whose renderer string names the graphics card that \<open>start\<close> refuses.\<close>

definition ctx_gt750m :: WebGLRenderingContext where
  "ctx_gt750m =
     \<lparr>timer_ext = True,
      UNMASKED_RENDERER_WEBGL = Some ''NVIDIA GeForce GT 750M OpenGL Engine'',
      calls = []\<rparr>"

text \<open>The property of claim C10: the running flag is set exactly when a query is active.\<close>

definition query_matches_running :: "WebGLProfiler \<Rightarrow> bool" where
  "query_matches_running s = (isRunning s \<longleftrightarrow> activeQuery s \<noteq> None)"

text \<open>The object after \<open>start()\<close>, \<open>popContext("profile")\<close> and a \<open>stop()\<close> that raises.\<close>

definition stop_raised0 :: WebGLProfiler where
  "stop_raised0 = run_catching [Start, PopContext ''profile'', Stop] (WebGLProfiler_new ctx0)"

subsection \<open>Auxiliary functions for the analysis of the export\<close>



section \<open>Verification\<close>

subsection \<open>The example objects, evaluated\<close>

lemma start_ctx0:
  "start (WebGLProfiler_new ctx0) =
     Inr \<lparr>glcontext = \<lparr>timer_ext = True, UNMASKED_RENDERER_WEBGL = None,
                         calls = [CreateQueryEXT 0, BeginQueryEXT 0, CreateQueryEXT 2,
                                  EndQueryEXT, BeginQueryEXT 2]\<rparr>,
          ext = Some EXT_disjoint_timer_query, activeQuery = Some 2, isRunning = True,
          eventsPendingTimestamps =
            [\<lparr>pending_action = \<lparr>action_type = OPEN_FRAME, action_name = ''profile''\<rparr>,
               query = 0\<rparr>],
          resolvedEvents = [], namedContextStack = [''profile'']\<rparr>"
  by (simp add: start_def WebGLProfiler_new_def ctx0_def pushContext_def markAction_def
      createQueryEXT_def beginQueryEXT_def endQueryEXT_def)

lemma started0_simps:
  "namedContextStack started0 = [''profile'']"
  "ext started0 = Some EXT_disjoint_timer_query"
  "activeQuery started0 = Some 2"
  "isRunning started0"
  "resolvedEvents started0 = []"
  by (simp_all add: started0_def start_ctx0)

lemma noext_simps:
  "ext (WebGLProfiler_new ctx_noext) = None"
  "activeQuery (WebGLProfiler_new ctx_noext) = None"
  "isRunning (WebGLProfiler_new ctx_noext) = False"
  by (simp_all add: WebGLProfiler_new_def ctx_noext_def)

subsection \<open>The context stack\<close>

text \<open>
  Claim C2, as amended. When \<open>popContext(name)\<close> is called on an empty context stack it
  fails with a \<open>ProtocolError\<close> and leaves the profiler as it was. When the stack is not
  empty and its top is not \<open>name\<close>, it fails with a \<open>ProtocolError\<close> too, but the source
  has already popped the array: the stack is left without its former top element, and
  nothing else has changed.
\<close>

theorem popContext_failure:
  "(namedContextStack s = [] \<longrightarrow> popContext nm s = Inl (PopOnEmptyStack, s)) \<and>
   (namedContextStack s \<noteq> [] \<and> last (namedContextStack s) \<noteq> nm \<longrightarrow>
      popContext nm s =
        Inl (PopMismatch (last (namedContextStack s)) nm,
             s\<lparr>namedContextStack := butlast (namedContextStack s)\<rparr>)) \<and>
   error_class_of PopOnEmptyStack = ProtocolError \<and>
   error_class_of (PopMismatch (last (namedContextStack s)) nm) = ProtocolError"
  by (simp add: popContext_def Let_def)

theorem popContext_failure_witness:
  "popContext ''x'' (WebGLProfiler_new ctx0) = Inl (PopOnEmptyStack, WebGLProfiler_new ctx0) \<and>
   popContext ''x'' started0 =
     Inl (PopMismatch ''profile'' ''x'', started0\<lparr>namedContextStack := []\<rparr>)"
  using popContext_failure [of "WebGLProfiler_new ctx0" "''x''"]
        popContext_failure [of started0 "''x''"]
  by (simp add: started0_simps) (simp add: WebGLProfiler_new_def)

text \<open>
  Claim C2 as stated fails: popping \<open>"x"\<close> when the stack holds only the root raises, and
  the stack, which held \<open>"profile"\<close>, is empty afterwards.
\<close>

theorem popContext_mismatch_counterexample:
  "last (namedContextStack started0) \<noteq> ''x'' \<and>
   raised (popContext ''x'' started0) = Some (PopMismatch ''profile'' ''x'') \<and>
   namedContextStack started0 = [''profile''] \<and>
   namedContextStack (state_after (popContext ''x'' started0)) = []"
  by (simp add: popContext_def Let_def started0_simps)

subsection \<open>Marking an action without an active query\<close>

text \<open>
  Claim C8, as amended. When the timer extension is present and no query is active,
  \<open>markAction\<close> fails with a \<open>ProtocolError\<close> and changes nothing, and so does
  \<open>pushContext\<close>; \<open>popContext\<close> fails with a \<open>ProtocolError\<close> and forwards no action, but
  a non-empty context stack has lost its top element by then. When the extension is
  absent, \<open>markAction\<close> returns at once without raising.
\<close>

theorem markAction_without_active_query:
  "(ext s \<noteq> None \<and> activeQuery s = None \<longrightarrow>
      markAction a s = Inl (NoProfileActive, s) \<and>
      pushContext nm s = Inl (NoProfileActive, s) \<and>
      (\<exists>e. popContext nm s =
             Inl (e, s\<lparr>namedContextStack := butlast (namedContextStack s)\<rparr>) \<and>
           error_class_of e = ProtocolError)) \<and>
   (ext s = None \<longrightarrow> markAction a s = Inr s) \<and>
   error_class_of NoProfileActive = ProtocolError"
  by (auto simp: markAction_def pushContext_def popContext_def Let_def)

theorem markAction_without_active_query_witness:
  "markAction \<lparr>action_type = OPEN_FRAME, action_name = ''a''\<rparr> (WebGLProfiler_new ctx0) =
     Inl (NoProfileActive, WebGLProfiler_new ctx0) \<and>
   pushContext ''a'' (WebGLProfiler_new ctx0) = Inl (NoProfileActive, WebGLProfiler_new ctx0) \<and>
   markAction \<lparr>action_type = OPEN_FRAME, action_name = ''a''\<rparr> (WebGLProfiler_new ctx_noext) =
     Inr (WebGLProfiler_new ctx_noext)"
  using markAction_without_active_query
          [of "WebGLProfiler_new ctx0" "\<lparr>action_type = OPEN_FRAME, action_name = ''a''\<rparr>" "''a''"]
        markAction_without_active_query
          [of "WebGLProfiler_new ctx_noext" "\<lparr>action_type = OPEN_FRAME, action_name = ''a''\<rparr>" "''a''"]
  by (simp add: noext_simps) (simp add: WebGLProfiler_new_def ctx0_def)

text \<open>
  Claim C8 as stated fails: without the extension no query is ever active, yet
  \<open>markAction\<close> returns normally and \<open>pushContext\<close> goes on to push the name.
\<close>

theorem markAction_no_extension_counterexample:
  "activeQuery (WebGLProfiler_new ctx_noext) = None \<and>
   markAction \<lparr>action_type = OPEN_FRAME, action_name = ''a''\<rparr> (WebGLProfiler_new ctx_noext) =
     Inr (WebGLProfiler_new ctx_noext) \<and>
   raised (pushContext ''a'' (WebGLProfiler_new ctx_noext)) = None \<and>
   namedContextStack (state_after (pushContext ''a'' (WebGLProfiler_new ctx_noext))) = [''a'']"
  by (simp add: markAction_def pushContext_def noext_simps) (simp add: WebGLProfiler_new_def)

subsection \<open>The resolution loop in closed form\<close>

lemma resolved_prefix_0: "resolved_prefix g i 0 s = s"
  by (simp add: resolved_prefix_def)

lemma resolved_prefix_fields:
  "eventsPendingTimestamps (resolved_prefix g i k s) = eventsPendingTimestamps s"
  "ext (resolved_prefix g i k s) = ext s"
  "activeQuery (resolved_prefix g i k s) = activeQuery s"
  "isRunning (resolved_prefix g i k s) = isRunning s"
  "namedContextStack (resolved_prefix g i k s) = namedContextStack s"
  "resolvedEvents (resolved_prefix g i k s) = resolvedEvents s @
     stamp g (last_timestamp (resolvedEvents s)) (take k (drop i (eventsPendingTimestamps s)))"
  by (simp_all add: resolved_prefix_def)

lemma resolve_loop_step:
  assumes "i < length (eventsPendingTimestamps s)"
    and "QUERY_RESULT_AVAILABLE_EXT g (query (eventsPendingTimestamps s ! i))"
    and "\<not> GPU_DISJOINT_EXT g i"
  shows "resolve_loop g i s = resolve_loop g (Suc i) (resolved_prefix g i (Suc 0) s)"
proof -
  have d: "take (Suc 0) (drop i (eventsPendingTimestamps s)) = [eventsPendingTimestamps s ! i]"
    using assms(1) by (simp add: take_Suc hd_drop_conv_nth)
  show ?thesis
    using assms
    by (subst resolve_loop.simps)
       (simp add: Let_def resolved_prefix_def d deleteQueryEXT_def last_timestamp_def last_conv_nth)
qed

lemma resolved_prefix_Suc:
  assumes "i < length (eventsPendingTimestamps s)"
  shows "resolved_prefix g (Suc i) k (resolved_prefix g i (Suc 0) s) = resolved_prefix g i (Suc k) s"
proof -
  have d: "drop i (eventsPendingTimestamps s) =
           eventsPendingTimestamps s ! i # drop (Suc i) (eventsPendingTimestamps s)"
    using assms by (simp add: Cons_nth_drop_Suc)
  show ?thesis
    by (simp add: resolved_prefix_def d last_timestamp_def)
qed

lemma resolve_loop_steps:
  "i + k \<le> length (eventsPendingTimestamps s) \<Longrightarrow>
   (\<forall>j. i \<le> j \<and> j < i + k \<longrightarrow>
        QUERY_RESULT_AVAILABLE_EXT g (query (eventsPendingTimestamps s ! j)) \<and>
        \<not> GPU_DISJOINT_EXT g j) \<Longrightarrow>
   resolve_loop g i s = resolve_loop g (i + k) (resolved_prefix g i k s)"
proof (induction k arbitrary: i s)
  case 0
  then show ?case by (simp add: resolved_prefix_0)
next
  case (Suc k)
  have lt: "i < length (eventsPendingTimestamps s)" using Suc.prems(1) by simp
  have step: "resolve_loop g i s = resolve_loop g (Suc i) (resolved_prefix g i (Suc 0) s)"
    using Suc.prems lt by (intro resolve_loop_step) auto
  have "resolve_loop g (Suc i) (resolved_prefix g i (Suc 0) s) =
        resolve_loop g (Suc i + k) (resolved_prefix g (Suc i) k (resolved_prefix g i (Suc 0) s))"
    using Suc.prems by (intro Suc.IH) (auto simp: resolved_prefix_fields)
  then show ?case
    using step resolved_prefix_Suc [OF lt, of g k] by simp
qed

lemma walk_le: "walk g i ps \<le> length ps"
  by (induction ps arbitrary: i) auto

lemma walk_good:
  "k < walk g i ps \<Longrightarrow>
   QUERY_RESULT_AVAILABLE_EXT g (query (ps ! k)) \<and> \<not> GPU_DISJOINT_EXT g (i + k)"
proof (induction ps arbitrary: i k)
  case Nil
  then show ?case by simp
next
  case (Cons p ps)
  show ?case
  proof (cases k)
    case 0
    then show ?thesis using Cons.prems by (auto split: if_splits)
  next
    case (Suc m)
    then show ?thesis
      using Cons.prems Cons.IH [of m "Suc i"] by (auto split: if_splits)
  qed
qed

lemma walk_stop:
  "walk g i ps < length ps \<Longrightarrow>
   \<not> (QUERY_RESULT_AVAILABLE_EXT g (query (ps ! walk g i ps)) \<and>
      \<not> GPU_DISJOINT_EXT g (i + walk g i ps))"
proof (induction ps arbitrary: i)
  case Nil
  then show ?case by simp
next
  case (Cons p ps)
  then show ?case
    using Cons.IH [of "Suc i"] by (auto split: if_splits)
qed

lemma resolve_loop_closed:
  fixes g s
  defines "ps \<equiv> eventsPendingTimestamps s"
  defines "k \<equiv> walk g 0 (eventsPendingTimestamps s)"
  shows "resolve_loop g 0 s =
     (if k < length ps \<and> QUERY_RESULT_AVAILABLE_EXT g (query (ps ! k))
      then Inl (GpuDisjoint, resolved_prefix g 0 k s)
      else Inr (k, resolved_prefix g 0 k s))"
proof -
  have kle: "k \<le> length ps" unfolding k_def ps_def by (rule walk_le)
  have good: "\<forall>j. 0 \<le> j \<and> j < 0 + k \<longrightarrow>
        QUERY_RESULT_AVAILABLE_EXT g (query (eventsPendingTimestamps s ! j)) \<and>
        \<not> GPU_DISJOINT_EXT g j"
    using walk_good [of _ g 0 "eventsPendingTimestamps s"] unfolding k_def by auto
  have steps: "resolve_loop g 0 s = resolve_loop g k (resolved_prefix g 0 k s)"
    using resolve_loop_steps [of 0 k s g] kle good unfolding ps_def by simp
  have stop: "k < length ps \<Longrightarrow>
      \<not> (QUERY_RESULT_AVAILABLE_EXT g (query (ps ! k)) \<and> \<not> GPU_DISJOINT_EXT g k)"
    using walk_stop [of g 0 "eventsPendingTimestamps s"] unfolding k_def ps_def by simp
  show ?thesis
    unfolding steps
    using stop kle
    by (subst resolve_loop.simps) (auto simp: Let_def resolved_prefix_fields ps_def)
qed


text \<open>What \<open>resolveEventsIfPossible\<close> returns, in every case.\<close>

lemma resolveEventsIfPossible_closed:
  assumes "ext s \<noteq> None"
  shows "resolveEventsIfPossible g s =
     (if walk g 0 (eventsPendingTimestamps s) < length (eventsPendingTimestamps s) \<and>
         QUERY_RESULT_AVAILABLE_EXT g
           (query (eventsPendingTimestamps s ! walk g 0 (eventsPendingTimestamps s)))
      then Inl (GpuDisjoint, resolved_prefix g 0 (walk g 0 (eventsPendingTimestamps s)) s)
      else Inr ((resolved_prefix g 0 (walk g 0 (eventsPendingTimestamps s)) s)
                  \<lparr>eventsPendingTimestamps :=
                     drop (walk g 0 (eventsPendingTimestamps s)) (eventsPendingTimestamps s)\<rparr>))"
  using assms
  by (auto simp: resolveEventsIfPossible_def resolve_loop_closed resolved_prefix_fields
                 resolved_prefix_0)

lemma resolveEventsIfPossible_noext:
  "ext s = None \<Longrightarrow> resolveEventsIfPossible g s = Inr s"
  by (simp add: resolveEventsIfPossible_def)

lemma walk_eq:
  "k \<le> length ps \<Longrightarrow>
   (\<forall>j<k. QUERY_RESULT_AVAILABLE_EXT g (query (ps ! j)) \<and> \<not> GPU_DISJOINT_EXT g (i + j)) \<Longrightarrow>
   (k < length ps \<longrightarrow>
      \<not> (QUERY_RESULT_AVAILABLE_EXT g (query (ps ! k)) \<and> \<not> GPU_DISJOINT_EXT g (i + k))) \<Longrightarrow>
   walk g i ps = k"
proof (induction ps arbitrary: i k)
  case Nil
  then show ?case by simp
next
  case (Cons p ps)
  show ?case
  proof (cases k)
    case 0
    then show ?thesis using Cons.prems by auto
  next
    case (Suc m)
    have "walk g (Suc i) ps = m"
      using Cons.prems Suc by (intro Cons.IH) auto
    moreover have "QUERY_RESULT_AVAILABLE_EXT g (query p) \<and> \<not> GPU_DISJOINT_EXT g i"
      using Cons.prems(2) Suc by auto
    ultimately show ?thesis using Suc by simp
  qed
qed

lemma length_stamp: "length (stamp g t ps) = length ps"
  by (induction ps arbitrary: t) auto

lemma map_action_stamp: "map action (stamp g t ps) = map pending_action ps"
  by (induction ps arbitrary: t) auto



subsection \<open>Resolving the available prefix\<close>



subsection \<open>The object with two pending measurements\<close>

lemma pushed0_eq:
  "pushed0 =
     \<lparr>glcontext = \<lparr>timer_ext = True, UNMASKED_RENDERER_WEBGL = None,
                     calls = [CreateQueryEXT 0, BeginQueryEXT 0, CreateQueryEXT 2, EndQueryEXT,
                              BeginQueryEXT 2, CreateQueryEXT 5, EndQueryEXT, BeginQueryEXT 5]\<rparr>,
      ext = Some EXT_disjoint_timer_query, activeQuery = Some 5, isRunning = True,
      eventsPendingTimestamps =
        [\<lparr>pending_action = \<lparr>action_type = OPEN_FRAME, action_name = ''profile''\<rparr>, query = 0\<rparr>,
         \<lparr>pending_action = \<lparr>action_type = OPEN_FRAME, action_name = ''a''\<rparr>, query = 2\<rparr>],
      resolvedEvents = [], namedContextStack = [''profile'', ''a'']\<rparr>"
  by (simp add: pushed0_def started0_def start_ctx0 pushContext_def markAction_def
      createQueryEXT_def beginQueryEXT_def endQueryEXT_def)

lemma pushed0_simps:
  "ext pushed0 = Some EXT_disjoint_timer_query"
  "eventsPendingTimestamps pushed0 =
     [\<lparr>pending_action = \<lparr>action_type = OPEN_FRAME, action_name = ''profile''\<rparr>, query = 0\<rparr>,
      \<lparr>pending_action = \<lparr>action_type = OPEN_FRAME, action_name = ''a''\<rparr>, query = 2\<rparr>]"
  "resolvedEvents pushed0 = []"
  by (simp_all add: pushed0_eq)


subsection \<open>The disjoint flag\<close>

text \<open>
  Claim C6. When the walk reaches entry \<open>i\<close> of the pending queue (every entry before it
  was available and resolved without a disjoint report), the result of entry \<open>i\<close> is
  available and the disjoint flag reads true, \<open>resolveEventsIfPossible\<close> fails with
  \<open>UnreliableTimingError\<close>. The resolved list has then gained the events of the first
  \<open>i\<close> entries only, only their queries have been deleted, and so neither entry \<open>i\<close> nor
  any later entry has been resolved.
\<close>

theorem resolveEventsIfPossible_disjoint:
  assumes "ext s \<noteq> None"
    and "i < length (eventsPendingTimestamps s)"
    and "\<forall>j<i. QUERY_RESULT_AVAILABLE_EXT g (query (eventsPendingTimestamps s ! j)) \<and>
               \<not> GPU_DISJOINT_EXT g j"
    and "QUERY_RESULT_AVAILABLE_EXT g (query (eventsPendingTimestamps s ! i))"
    and "GPU_DISJOINT_EXT g i"
  shows "\<exists>s'. resolveEventsIfPossible g s = Inl (GpuDisjoint, s') \<and>
     error_class_of GpuDisjoint = UnreliableTimingError \<and>
     length (resolvedEvents s') = length (resolvedEvents s) + i \<and>
     take (length (resolvedEvents s)) (resolvedEvents s') = resolvedEvents s \<and>
     map action (drop (length (resolvedEvents s)) (resolvedEvents s')) =
       map pending_action (take i (eventsPendingTimestamps s)) \<and>
     calls (glcontext s') =
       calls (glcontext s) @
       map (\<lambda>p. DeleteQueryEXT (query p)) (take i (eventsPendingTimestamps s)) \<and>
     eventsPendingTimestamps s' = eventsPendingTimestamps s"
proof -
  have w: "walk g 0 (eventsPendingTimestamps s) = i"
    using assms by (intro walk_eq) auto
  have res: "resolveEventsIfPossible g s = Inl (GpuDisjoint, resolved_prefix g 0 i s)"
    using assms(1,2,4) by (simp add: resolveEventsIfPossible_closed w)
  show ?thesis
    unfolding res using assms(2)
    by (simp add: resolved_prefix_fields length_stamp map_action_stamp)
       (simp add: resolved_prefix_def)
qed

theorem resolveEventsIfPossible_disjoint_witness:
  "\<exists>s'. resolveEventsIfPossible gpu_disjoint_second pushed0 = Inl (GpuDisjoint, s') \<and>
        map action (resolvedEvents s') = [\<lparr>action_type = OPEN_FRAME, action_name = ''profile''\<rparr>] \<and>
        calls (glcontext s') = calls (glcontext pushed0) @ [DeleteQueryEXT 0] \<and>
        eventsPendingTimestamps s' = eventsPendingTimestamps pushed0"
  using resolveEventsIfPossible_disjoint [of pushed0 1 gpu_disjoint_second]
  by (auto simp: pushed0_simps gpu_disjoint_second_def)

subsection \<open>Removal of the consumed entries\<close>

text \<open>
  Claim C3, as amended. A call of \<open>resolveEventsIfPossible\<close> that returns normally has
  removed from the pending queue exactly the entries it consumed: for some \<open>n\<close> the new
  queue is the old one without its first \<open>n\<close> entries, and the resolved list has gained
  the actions of those \<open>n\<close> entries, in order. A call that raises can only raise the
  disjoint error; it has appended the actions of the first \<open>n\<close> entries for some \<open>n\<close>
  below the length of the queue, and it leaves the pending queue as it was.
\<close>

theorem resolveEventsIfPossible_batch_removal:
  "(resolveEventsIfPossible g s = Inr s' \<longrightarrow>
      (\<exists>n \<le> length (eventsPendingTimestamps s).
         eventsPendingTimestamps s' = drop n (eventsPendingTimestamps s) \<and>
         map action (resolvedEvents s') =
           map action (resolvedEvents s) @ map pending_action (take n (eventsPendingTimestamps s)))) \<and>
   (resolveEventsIfPossible g s = Inl (e, s') \<longrightarrow>
      e = GpuDisjoint \<and>
      eventsPendingTimestamps s' = eventsPendingTimestamps s \<and>
      (\<exists>n < length (eventsPendingTimestamps s).
         map action (resolvedEvents s') =
           map action (resolvedEvents s) @ map pending_action (take n (eventsPendingTimestamps s))))"
proof (cases "ext s = None")
  case True
  then have "resolveEventsIfPossible g s = Inr s"
    by (rule resolveEventsIfPossible_noext)
  then show ?thesis by auto
next
  case False
  show ?thesis
    using walk_le [of g 0 "eventsPendingTimestamps s"]
    unfolding resolveEventsIfPossible_closed [OF False]
    by (auto simp: resolved_prefix_fields map_action_stamp)
qed

theorem resolveEventsIfPossible_batch_removal_witness:
  "(\<exists>n \<le> length (eventsPendingTimestamps pushed0).
      eventsPendingTimestamps (state_after (resolveEventsIfPossible gpu5 pushed0)) =
        drop n (eventsPendingTimestamps pushed0) \<and>
      map action (resolvedEvents (state_after (resolveEventsIfPossible gpu5 pushed0))) =
        map action (resolvedEvents pushed0) @
        map pending_action (take n (eventsPendingTimestamps pushed0))) \<and>
   raised (resolveEventsIfPossible gpu5 pushed0) = None \<and>
   raised (resolveEventsIfPossible gpu_disjoint_second pushed0) = Some GpuDisjoint \<and>
   eventsPendingTimestamps (state_after (resolveEventsIfPossible gpu_disjoint_second pushed0)) =
     eventsPendingTimestamps pushed0"
proof -
  have ok: "walk gpu5 0 (eventsPendingTimestamps pushed0) = 2"
    by (simp add: pushed0_simps gpu5_def)
  have r: "resolveEventsIfPossible gpu5 pushed0 =
             Inr (state_after (resolveEventsIfPossible gpu5 pushed0))"
    by (simp add: resolveEventsIfPossible_closed pushed0_simps ok) (simp add: gpu5_def)
  have w: "walk gpu_disjoint_second 0 (eventsPendingTimestamps pushed0) = 1"
    by (simp add: pushed0_simps gpu_disjoint_second_def)
  have r2: "resolveEventsIfPossible gpu_disjoint_second pushed0 =
             Inl (GpuDisjoint, state_after (resolveEventsIfPossible gpu_disjoint_second pushed0))"
    by (simp add: resolveEventsIfPossible_closed pushed0_simps w)
       (simp add: gpu_disjoint_second_def)
  have a: "\<exists>n \<le> length (eventsPendingTimestamps pushed0).
      eventsPendingTimestamps (state_after (resolveEventsIfPossible gpu5 pushed0)) =
        drop n (eventsPendingTimestamps pushed0) \<and>
      map action (resolvedEvents (state_after (resolveEventsIfPossible gpu5 pushed0))) =
        map action (resolvedEvents pushed0) @
        map pending_action (take n (eventsPendingTimestamps pushed0))"
    using resolveEventsIfPossible_batch_removal
            [of gpu5 pushed0 "state_after (resolveEventsIfPossible gpu5 pushed0)"] r
    by blast
  have b: "eventsPendingTimestamps (state_after (resolveEventsIfPossible gpu_disjoint_second pushed0)) =
     eventsPendingTimestamps pushed0"
    using resolveEventsIfPossible_batch_removal
            [of gpu_disjoint_second pushed0
                "state_after (resolveEventsIfPossible gpu_disjoint_second pushed0)" GpuDisjoint] r2
    by blast
  have c: "raised (resolveEventsIfPossible gpu5 pushed0) = None"
    by (subst r) simp
  have d: "raised (resolveEventsIfPossible gpu_disjoint_second pushed0) = Some GpuDisjoint"
    by (subst r2) simp
  show ?thesis using a b c d by blast
qed

text \<open>
  Claim C3 as stated fails for a call that raises: with two measurements pending and the
  disjoint flag set at the second one, the call raises after it has appended the first
  action to the resolved list, and that action is still in the pending queue.
\<close>

theorem resolveEventsIfPossible_raise_counterexample:
  "raised (resolveEventsIfPossible gpu_disjoint_second pushed0) = Some GpuDisjoint \<and>
   map action (resolvedEvents (state_after (resolveEventsIfPossible gpu_disjoint_second pushed0))) =
     [\<lparr>action_type = OPEN_FRAME, action_name = ''profile''\<rparr>] \<and>
   map pending_action
     (eventsPendingTimestamps (state_after (resolveEventsIfPossible gpu_disjoint_second pushed0))) =
     [\<lparr>action_type = OPEN_FRAME, action_name = ''profile''\<rparr>,
      \<lparr>action_type = OPEN_FRAME, action_name = ''a''\<rparr>]"
proof -
  have w: "walk gpu_disjoint_second 0 (eventsPendingTimestamps pushed0) = 1"
    by (simp add: pushed0_simps gpu_disjoint_second_def)
  have r: "resolveEventsIfPossible gpu_disjoint_second pushed0 =
             Inl (GpuDisjoint, resolved_prefix gpu_disjoint_second 0 1 pushed0)"
    by (simp add: resolveEventsIfPossible_closed pushed0_simps w)
       (simp add: gpu_disjoint_second_def)
  show ?thesis
    unfolding r
    by (simp add: resolved_prefix_fields pushed0_simps)
qed


subsection \<open>Fields that a call leaves alone\<close>

lemma markAction_fields:
  "ext (state_after (markAction a s)) = ext s"
  "isRunning (state_after (markAction a s)) = isRunning s"
  "resolvedEvents (state_after (markAction a s)) = resolvedEvents s"
  "namedContextStack (state_after (markAction a s)) = namedContextStack s"
  "(activeQuery (state_after (markAction a s)) = None) = (activeQuery s = None)"
  by (auto simp: markAction_def Let_def split: option.splits prod.splits)

lemma pushContext_fields:
  "ext (state_after (pushContext nm s)) = ext s"
  "isRunning (state_after (pushContext nm s)) = isRunning s"
  "resolvedEvents (state_after (pushContext nm s)) = resolvedEvents s"
  "(activeQuery (state_after (pushContext nm s)) = None) = (activeQuery s = None)"
  by (auto simp: pushContext_def markAction_def Let_def split: option.splits prod.splits)

lemma popContext_fields:
  "ext (state_after (popContext nm s)) = ext s"
  "isRunning (state_after (popContext nm s)) = isRunning s"
  "resolvedEvents (state_after (popContext nm s)) = resolvedEvents s"
  "(activeQuery (state_after (popContext nm s)) = None) = (activeQuery s = None)"
  by (auto simp: popContext_def markAction_def Let_def split: option.splits prod.splits)

lemma start_fields:
  "ext (state_after (start s)) = ext s"
  "start s = Inl (e, s') \<Longrightarrow> s' = s"
  "start s = Inr s' \<Longrightarrow> isRunning s' \<and> activeQuery s' \<noteq> None \<and> ext s' \<noteq> None \<and> resolvedEvents s' = []"
  by (auto simp: start_def pushContext_def markAction_def Let_def createQueryEXT_def
           split: option.splits prod.splits if_splits)

lemma stop_fields:
  "ext (state_after (stop s)) = ext s"
  "resolvedEvents (state_after (stop s)) = resolvedEvents s"
  "stop s = Inr s' \<Longrightarrow> ext s = None \<and> s' = s \<or> \<not> isRunning s' \<and> activeQuery s' = None"
  "stop s = Inl (AlreadyStopped, s') \<Longrightarrow> s' = s"
  by (auto simp: stop_def popContext_def markAction_def Let_def
           split: option.splits prod.splits if_splits sum.splits)

lemma resolveEventsIfPossible_fields:
  "ext (state_after (resolveEventsIfPossible g s)) = ext s"
  "isRunning (state_after (resolveEventsIfPossible g s)) = isRunning s"
  "activeQuery (state_after (resolveEventsIfPossible g s)) = activeQuery s"
  "namedContextStack (state_after (resolveEventsIfPossible g s)) = namedContextStack s"
  by (cases "ext s = None";
      simp add: resolveEventsIfPossible_closed resolveEventsIfPossible_noext resolved_prefix_fields)+

lemma exec_ext: "ext (state_after (exec cl s)) = ext s"
  by (cases cl)
     (simp_all add: start_fields stop_fields pushContext_fields popContext_fields
        resolveEventsIfPossible_fields)

lemma run_catching_ext: "ext (run_catching cs s) = ext s"
  by (induction cs arbitrary: s) (simp_all add: exec_ext)

lemma start_running: "isRunning s \<Longrightarrow> state_after (start s) = s"
  by (simp add: start_def)

lemma exec_keeps_running:
  "isRunning s \<Longrightarrow> cl \<noteq> Stop \<Longrightarrow> isRunning (state_after (exec cl s))"
  by (cases cl)
     (simp_all add: start_running pushContext_fields popContext_fields
        resolveEventsIfPossible_fields)

lemma run_catching_keeps_running:
  "isRunning s \<Longrightarrow> Stop \<notin> set cs \<Longrightarrow> isRunning (run_catching cs s)"
proof (induction cs arbitrary: s)
  case Nil
  then show ?case by simp
next
  case (Cons cl cs)
  have "cl \<noteq> Stop" using Cons.prems(2) by auto
  then have "isRunning (state_after (exec cl s))"
    using Cons.prems(1) by (simp add: exec_keeps_running)
  then show ?case using Cons.IH Cons.prems(2) by simp
qed

lemma exec_running_ext:
  assumes a: "isRunning s \<longrightarrow> ext s \<noteq> None"
  shows "isRunning (state_after (exec cl s)) \<longrightarrow> ext (state_after (exec cl s)) \<noteq> None"
proof (cases cl)
  case Start
  then show ?thesis
    using a start_fields(2,3) [of s] by (cases "start s") auto
next
  case Stop
  show ?thesis
  proof (cases "ext s = None")
    case True
    then show ?thesis using a Stop by (simp add: stop_def)
  next
    case False
    then show ?thesis using Stop by (simp add: stop_fields)
  qed
qed (use a in \<open>simp_all add: pushContext_fields popContext_fields resolveEventsIfPossible_fields\<close>)

lemma run_catching_running_ext:
  "(isRunning s \<longrightarrow> ext s \<noteq> None) \<Longrightarrow>
   isRunning (run_catching cs s) \<longrightarrow> ext (run_catching cs s) \<noteq> None"
proof (induction cs arbitrary: s)
  case Nil
  then show ?case by simp
next
  case (Cons cl cs)
  show ?case
    using Cons.IH [OF exec_running_ext [OF Cons.prems, of cl]] by simp
qed

text \<open>
  Without the extension nothing is ever enqueued: in every object that calls produce from
  a new profiler, the extension is present or the pending queue is empty.
\<close>

lemma exec_pending_without_ext:
  "ext s = None \<Longrightarrow>
   eventsPendingTimestamps (state_after (exec cl s)) = eventsPendingTimestamps s"
  by (cases cl)
     (auto simp: start_def stop_def pushContext_def popContext_def markAction_def Let_def
        resolveEventsIfPossible_noext)

lemma run_catching_pending_without_ext:
  "ext s = None \<Longrightarrow>
   eventsPendingTimestamps (run_catching cs s) = eventsPendingTimestamps s"
proof (induction cs arbitrary: s)
  case Nil
  then show ?case by simp
next
  case (Cons cl cs)
  have "ext (state_after (exec cl s)) = None"
    using Cons.prems by (simp add: exec_ext)
  then show ?case
    using Cons.IH [of "state_after (exec cl s)"] Cons.prems
    by (simp add: exec_pending_without_ext)
qed

lemma reachable_ext_or_no_pending:
  "ext (run_catching cs (WebGLProfiler_new c)) \<noteq> None \<or>
   eventsPendingTimestamps (run_catching cs (WebGLProfiler_new c)) = []"
proof (cases "ext (WebGLProfiler_new c) = None")
  case True
  then show ?thesis
    using run_catching_pending_without_ext [of "WebGLProfiler_new c" cs]
    by (simp add: WebGLProfiler_new_def)
next
  case False
  then show ?thesis by (simp add: run_catching_ext)
qed

subsection \<open>Failures of \<open>start\<close>\<close>

text \<open>\<open>indexOf\<close> finds the pattern exactly when it occurs as a contiguous substring.\<close>

lemma indexOf_from_sublist: "indexOf_from i str pat \<noteq> -1 \<longleftrightarrow> sublist pat str"
  by (induction str arbitrary: i) (auto simp: sublist_Cons_right)

lemma indexOf_sublist: "indexOf str pat \<noteq> -1 \<longleftrightarrow> sublist pat str"
  by (simp add: indexOf_def indexOf_from_sublist)

lemma new_not_running: "\<not> isRunning (WebGLProfiler_new c)"
  by (simp add: WebGLProfiler_new_def)

text \<open>
  Claim C7. \<open>start()\<close> fails with \<open>UnsupportedError\<close> when the timer extension is not
  available. It fails with \<open>InvalidStateError\<close> whenever the profiler is running, in any
  object that a sequence of calls can produce from a new profiler; in particular a second
  \<open>start()\<close> after a successful one fails so, whatever calls other than \<open>stop()\<close> come
  in between. It fails with \<open>UnsupportedHardwareError\<close> when the two earlier checks pass
  and the renderer string contains the name of the refused card. In each case the error
  comes with the unchanged object, context and its call log included: no query was
  created and no measurement begun.
\<close>

theorem start_failures:
  "(ext s = None \<longrightarrow> start s = Inl (ExtensionNotAvailable, s)) \<and>
   (isRunning (run_catching cs (WebGLProfiler_new c)) \<longrightarrow>
      start (run_catching cs (WebGLProfiler_new c)) =
        Inl (AlreadyRunning, run_catching cs (WebGLProfiler_new c))) \<and>
   (start s = Inr s1 \<and> Stop \<notin> set cs \<longrightarrow>
      start (run_catching cs s1) = Inl (AlreadyRunning, run_catching cs s1)) \<and>
   (ext s \<noteq> None \<and> \<not> isRunning s \<and>
    UNMASKED_RENDERER_WEBGL (glcontext s) = Some r \<and>
    indexOf r ''NVIDIA GeForce GT 750M'' \<noteq> -1 \<longrightarrow>
      start s = Inl (BuggyRenderer r, s)) \<and>
   error_class_of ExtensionNotAvailable = UnsupportedError \<and>
   error_class_of AlreadyRunning = InvalidStateError \<and>
   error_class_of (BuggyRenderer r) = UnsupportedHardwareError"
proof -
  have a: "ext s = None \<longrightarrow> start s = Inl (ExtensionNotAvailable, s)"
    by (simp add: start_def)
  have running: "\<And>t. isRunning t \<Longrightarrow> ext t \<noteq> None \<Longrightarrow> start t = Inl (AlreadyRunning, t)"
    by (simp add: start_def)
  have b: "isRunning (run_catching cs (WebGLProfiler_new c)) \<longrightarrow>
      start (run_catching cs (WebGLProfiler_new c)) =
        Inl (AlreadyRunning, run_catching cs (WebGLProfiler_new c))"
    using run_catching_running_ext [of "WebGLProfiler_new c" cs] running
    by (simp add: new_not_running)
  have c: "start s = Inr s1 \<and> Stop \<notin> set cs \<longrightarrow>
      start (run_catching cs s1) = Inl (AlreadyRunning, run_catching cs s1)"
  proof
    assume h: "start s = Inr s1 \<and> Stop \<notin> set cs"
    then have "isRunning s1" "ext s1 \<noteq> None"
      using start_fields(3) [of s s1] by auto
    then have "isRunning (run_catching cs s1)" "ext (run_catching cs s1) \<noteq> None"
      using h by (simp_all add: run_catching_keeps_running run_catching_ext)
    then show "start (run_catching cs s1) = Inl (AlreadyRunning, run_catching cs s1)"
      by (rule running)
  qed
  have d: "ext s \<noteq> None \<and> \<not> isRunning s \<and>
    UNMASKED_RENDERER_WEBGL (glcontext s) = Some r \<and>
    indexOf r ''NVIDIA GeForce GT 750M'' \<noteq> -1 \<longrightarrow>
      start s = Inl (BuggyRenderer r, s)"
    by (simp add: start_def)
  show ?thesis using a b c d by simp
qed

lemma indexOf_gt750m:
  "indexOf ''NVIDIA GeForce GT 750M OpenGL Engine'' ''NVIDIA GeForce GT 750M'' = 0"
  by (simp add: indexOf_def)

theorem start_failures_witness:
  "start (WebGLProfiler_new ctx_noext) = Inl (ExtensionNotAvailable, WebGLProfiler_new ctx_noext) \<and>
   start (run_catching [Start] (WebGLProfiler_new ctx0)) =
     Inl (AlreadyRunning, run_catching [Start] (WebGLProfiler_new ctx0)) \<and>
   start (run_catching [PushContext ''a''] started0) =
     Inl (AlreadyRunning, run_catching [PushContext ''a''] started0) \<and>
   start (WebGLProfiler_new ctx_gt750m) =
     Inl (BuggyRenderer ''NVIDIA GeForce GT 750M OpenGL Engine'', WebGLProfiler_new ctx_gt750m)"
proof -
  have r: "isRunning (run_catching [Start] (WebGLProfiler_new ctx0))"
    by (simp add: start_ctx0)
  have s: "start (WebGLProfiler_new ctx0) = Inr started0"
    by (simp add: started0_def start_ctx0)
  have g: "ext (WebGLProfiler_new ctx_gt750m) \<noteq> None"
      "\<not> isRunning (WebGLProfiler_new ctx_gt750m)"
      "UNMASKED_RENDERER_WEBGL (glcontext (WebGLProfiler_new ctx_gt750m)) =
         Some ''NVIDIA GeForce GT 750M OpenGL Engine''"
    by (simp_all add: WebGLProfiler_new_def ctx_gt750m_def)
  show ?thesis
    using start_failures [of "WebGLProfiler_new ctx_noext" "[Start]" ctx0 s1 r for s1 r]
          start_failures [of "WebGLProfiler_new ctx0" "[PushContext ''a'']" c started0 r for c r]
          start_failures [of "WebGLProfiler_new ctx_gt750m" cs c s1
                             "''NVIDIA GeForce GT 750M OpenGL Engine''" for cs c s1]
          r s g
    by (simp add: noext_simps indexOf_gt750m del: run_catching.simps)
qed


subsection \<open>The running flag and the active query\<close>

lemma stop_query_matches_running:
  assumes "query_matches_running s"
    and "\<not> (\<exists>e. raised (stop s) = Some e \<and> error_class_of e = ProtocolError)"
  shows "query_matches_running (state_after (stop s))"
  using assms
  by (auto simp: query_matches_running_def stop_def popContext_def markAction_def Let_def
           split: option.splits prod.splits if_splits sum.splits)

lemma exec_query_matches_running:
  assumes "query_matches_running s"
    and "\<not> (cl = Stop \<and> (\<exists>e. raised (stop s) = Some e \<and> error_class_of e = ProtocolError))"
  shows "query_matches_running (state_after (exec cl s))"
proof (cases cl)
  case Start
  then show ?thesis
    using assms(1) start_fields(2,3) [of s]
    by (cases "start s") (auto simp: query_matches_running_def)
next
  case Stop
  then show ?thesis using assms stop_query_matches_running by simp
next
  case (PushContext nm)
  then show ?thesis
    using assms(1) by (simp add: query_matches_running_def pushContext_fields)
next
  case (PopContext nm)
  then show ?thesis
    using assms(1) by (simp add: query_matches_running_def popContext_fields)
next
  case (ResolveEventsIfPossible g)
  then show ?thesis
    using assms(1) by (simp add: query_matches_running_def resolveEventsIfPossible_fields)
qed

lemma withContext_query_matches_running:
  assumes "query_matches_running s"
    and cb: "\<forall>t t'. query_matches_running t \<and> callback t = Inr t' \<longrightarrow> query_matches_running t'"
    and w: "withContext nm callback s = Inr s'"
  shows "query_matches_running s'"
proof -
  obtain s1 where s1: "pushContext nm s = Inr s1"
    using w by (cases "pushContext nm s") (auto simp: withContext_def)
  obtain s2 where s2: "callback s1 = Inr s2"
    using w s1 by (cases "callback s1") (auto simp: withContext_def)
  have p: "popContext nm s2 = Inr s'"
    using w s1 s2 by (simp add: withContext_def)
  have "query_matches_running s1"
    using assms(1) pushContext_fields(2,4) [of nm s] s1
    by (simp add: query_matches_running_def)
  then have "query_matches_running s2"
    using cb s2 by blast
  then show ?thesis
    using popContext_fields(2,4) [of nm s2] p
    by (simp add: query_matches_running_def)
qed

lemma exportSpeedscopeProfile_query_matches_running:
  "query_matches_running s \<Longrightarrow>
   exportSpeedscopeProfile gs s = Some (Inl (e, s')) \<or>
   exportSpeedscopeProfile gs s = Some (Inr (f, s')) \<Longrightarrow>
   query_matches_running s'"
proof (induction gs arbitrary: s)
  case Nil
  then show ?case by (auto split: if_splits sum.splits)
next
  case (Cons g gs)
  show ?case
  proof (cases "length (eventsPendingTimestamps s) > 0")
    case False
    then show ?thesis using Cons.prems by (auto split: sum.splits)
  next
    case True
    have q: "query_matches_running (state_after (resolveEventsIfPossible g s))"
      using Cons.prems(1) by (simp add: query_matches_running_def resolveEventsIfPossible_fields)
    show ?thesis
    proof (cases "resolveEventsIfPossible g s")
      case (Inl a)
      then show ?thesis using True Cons.prems(2) q by (cases a) auto
    next
      case (Inr s1)
      then show ?thesis
        using True Cons.prems(2) q Cons.IH [of s1] by auto
    qed
  qed
qed

text \<open>
  Claim C10, as amended. After construction the running flag is false and no query is
  active. Every call of \<open>start\<close>, \<open>stop\<close>, \<open>pushContext\<close>, \<open>popContext\<close> or of the
  resolution routine, whether it returns or raises, keeps the equivalence between the
  running flag and the presence of an active query, with one exception about which
  nothing is stated: a \<open>stop()\<close> that raises a \<open>ProtocolError\<close> from its inner
  \<open>popContext("profile")\<close>. \<open>withContext\<close> keeps the equivalence when it returns
  normally and its callback keeps it, and so does \<open>exportSpeedscopeProfile\<close>.
\<close>

theorem query_matches_running_preserved:
  "query_matches_running (WebGLProfiler_new c) \<and>
   (query_matches_running s \<and>
    \<not> (cl = Stop \<and> (\<exists>e. raised (stop s) = Some e \<and> error_class_of e = ProtocolError)) \<longrightarrow>
      query_matches_running (state_after (exec cl s))) \<and>
   (query_matches_running s \<and>
    (\<forall>t t'. query_matches_running t \<and> callback t = Inr t' \<longrightarrow> query_matches_running t') \<and>
    withContext nm callback s = Inr s' \<longrightarrow>
      query_matches_running s') \<and>
   (query_matches_running s \<and>
    (exportSpeedscopeProfile gs s = Some (Inl (e, s'')) \<or>
     exportSpeedscopeProfile gs s = Some (Inr (f, s''))) \<longrightarrow>
      query_matches_running s'')"
proof -
  have "query_matches_running (WebGLProfiler_new c)"
    by (simp add: query_matches_running_def WebGLProfiler_new_def)
  then show ?thesis
    using exec_query_matches_running [of s cl]
          withContext_query_matches_running [of s callback nm s']
          exportSpeedscopeProfile_query_matches_running [of s gs e s'' f]
    by blast
qed


text \<open>
  The calls \<open>start()\<close>, \<open>popContext("profile")\<close>, \<open>stop()\<close>: the client pops the root
  itself, and \<open>stop()\<close> then raises from its own pop of the root, after it has cleared
  the running flag and before it clears the active query.
\<close>

lemma pop_profile_started0:
  "popContext ''profile'' started0 =
   Inr \<lparr>glcontext = \<lparr>timer_ext = True, UNMASKED_RENDERER_WEBGL = None,
                   calls = [CreateQueryEXT 0, BeginQueryEXT 0, CreateQueryEXT 2, EndQueryEXT,
                            BeginQueryEXT 2, CreateQueryEXT 5, EndQueryEXT, BeginQueryEXT 5]\<rparr>,
    ext = Some EXT_disjoint_timer_query, activeQuery = Some 5, isRunning = True,
    eventsPendingTimestamps =
      [\<lparr>pending_action = \<lparr>action_type = OPEN_FRAME, action_name = ''profile''\<rparr>, query = 0\<rparr>,
       \<lparr>pending_action = \<lparr>action_type = CLOSE_FRAME, action_name = ''profile''\<rparr>, query = 2\<rparr>],
    resolvedEvents = [], namedContextStack = []\<rparr>"
  by (simp add: started0_def start_ctx0 popContext_def markAction_def Let_def
      createQueryEXT_def beginQueryEXT_def endQueryEXT_def)


lemma stop_after_pop:
  "stop (state_after (popContext ''profile'' started0)) =
   Inl (PopOnEmptyStack,
        (state_after (popContext ''profile'' started0))\<lparr>isRunning := False\<rparr>)"
  unfolding pop_profile_started0
  by (simp add: stop_def popContext_def)

lemma stop_raised0_simps:
  "ext stop_raised0 = Some EXT_disjoint_timer_query"
  "activeQuery stop_raised0 = Some 5"
  "isRunning stop_raised0 = False"
  "length (calls (glcontext stop_raised0)) = 8"
proof -
  have eq: "stop_raised0 = (state_after (popContext ''profile'' started0))\<lparr>isRunning := False\<rparr>"
    by (simp add: stop_raised0_def started0_def [symmetric] stop_after_pop)
  show "ext stop_raised0 = Some EXT_disjoint_timer_query"
    "activeQuery stop_raised0 = Some 5"
    "isRunning stop_raised0 = False"
    "length (calls (glcontext stop_raised0)) = 8"
    unfolding eq by (simp_all add: pop_profile_started0)
qed

text \<open>
  Claim C10 as stated fails: after those three calls a \<open>pushContext("a")\<close> returns
  normally, and at that boundary the profiler is not running although a query is active.
\<close>

theorem stop_raise_counterexample:
  "raised (exec (PushContext ''a'') stop_raised0) = None \<and>
   isRunning (state_after (exec (PushContext ''a'') stop_raised0)) = False \<and>
   activeQuery (state_after (exec (PushContext ''a'') stop_raised0)) = Some 8"
  by (simp add: pushContext_def markAction_def Let_def stop_raised0_simps createQueryEXT_def
           split: prod.splits)


lemma push_a_started0: "pushContext ''a'' started0 = Inr pushed0"
  unfolding pushed0_eq
  by (simp add: started0_def start_ctx0 pushContext_def markAction_def
      createQueryEXT_def beginQueryEXT_def endQueryEXT_def)

lemma pop_a_pushed0: "raised (popContext ''a'' pushed0) = None"
  unfolding pushed0_eq
  by (simp add: popContext_def markAction_def Let_def createQueryEXT_def split: prod.splits)

theorem query_matches_running_preserved_witness:
  "query_matches_running (WebGLProfiler_new ctx0) \<and>
   query_matches_running (state_after (exec Start (WebGLProfiler_new ctx0))) \<and>
   query_matches_running (state_after (exec (PopContext ''x'') started0)) \<and>
   query_matches_running (state_after (withContext ''a'' Inr started0))"
proof -
  have q0: "query_matches_running (WebGLProfiler_new ctx0)"
    by (rule query_matches_running_preserved [of ctx0, THEN conjunct1])
  have q1: "query_matches_running (state_after (exec Start (WebGLProfiler_new ctx0)))"
    using query_matches_running_preserved
            [of ctx0 "WebGLProfiler_new ctx0" Start, THEN conjunct2, THEN conjunct1] q0
    by simp
  have st: "started0 = state_after (exec Start (WebGLProfiler_new ctx0))"
    by (simp add: started0_def)
  have q1': "query_matches_running started0"
    using q1 unfolding st .
  have q2: "query_matches_running (state_after (exec (PopContext ''x'') started0))"
    using query_matches_running_preserved
            [of ctx0 started0 "PopContext ''x''", THEN conjunct2, THEN conjunct1] q1'
    by simp
  have w: "withContext ''a'' Inr started0 = Inr (state_after (withContext ''a'' Inr started0))"
    using pop_a_pushed0
    by (cases "popContext ''a'' pushed0") (auto simp: withContext_def push_a_started0)
  have cb: "\<forall>t t'. query_matches_running t \<and> Inr t = Inr t' \<longrightarrow> query_matches_running t'"
    by simp
  have q3: "query_matches_running (state_after (withContext ''a'' Inr started0))"
    using query_matches_running_preserved
            [of ctx0 started0 Start Inr "''a''" "state_after (withContext ''a'' Inr started0)",
             THEN conjunct2, THEN conjunct2, THEN conjunct1] q1' w cb
    by blast
  show ?thesis using q0 q1 q2 q3 by simp
qed


subsection \<open>The frame table\<close>






subsection \<open>Runs of the export\<close>



subsection \<open>Timestamps are non-decreasing\<close>










subsection \<open>When every result is available\<close>







subsection \<open>Well-nested calls\<close>








subsection \<open>A profiling session\<close>











subsection \<open>The scenario with one nested context\<close>





end
